theory Spec2Isabelle
  imports Main
begin

section \<open>Errors\<close>

text \<open>
  The exceptions the modelled code can raise: an attribute looked up on \<open>None\<close> or on an
  object that does not define it, a list index out of range, the \<open>RuntimeError\<close> of
  \<open>win32.py\<close> when a console call reports failure, the \<open>ValueError\<close> of \<open>int\<close> on a
  string of too many digits, and the \<open>TypeError\<close> of a call with the wrong number of
  arguments.
\<close>

datatype error = AttributeError | IndexError | RuntimeError | ValueError | TypeError

section \<open>Characters, strings and Python string primitives\<close>

text \<open>
  Python strings are modelled as \<open>string\<close> (a list of characters). The three control
  characters the module matches on are \<open>\033\<close> (ESC), \<open>\x07\<close> (BEL) and the newline,
  which the regular expression atom \<open>.\<close> refuses.
\<close>

definition ESC :: char where
  "ESC = CHR 0x1B"

definition BEL :: char where
  "BEL = CHR 0x07"

definition NL :: char where
  "NL = CHR 0x0A"

text \<open>\<open>s[a:b]\<close> for indices \<open>0 \<le> a\<close>, \<open>0 \<le> b\<close>: out-of-range indices are clamped.\<close>

definition slice :: "string \<Rightarrow> nat \<Rightarrow> nat \<Rightarrow> string" where
  "slice s a b = take (b - a) (drop a s)"

text \<open>\<open>s.split(d)\<close> with a one-character separator: always at least one field.\<close>

fun split_on :: "char \<Rightarrow> string \<Rightarrow> string list" where
  "split_on d [] = [[]]"
| "split_on d (c # cs) =
     (if c = d then [] # split_on d cs
      else (case split_on d cs of
              [] \<Rightarrow> [[c]]
            | f # fs \<Rightarrow> (c # f) # fs))"

text \<open>\<open>p in s\<close> on strings is the substring test.\<close>

fun starts_with :: "string \<Rightarrow> string \<Rightarrow> bool" where
  "starts_with [] s = True"
| "starts_with (c # p) [] = False"
| "starts_with (c # p) (d # s) = (c = d \<and> starts_with p s)"

fun str_in :: "string \<Rightarrow> string \<Rightarrow> bool" where
  "str_in p [] = (p = [])"
| "str_in p (d # s) = (starts_with p (d # s) \<or> str_in p s)"

text \<open>\<open>sep.join(fields)\<close> with a one-character separator, the inverse of \<open>split\<close>.\<close>

fun join :: "char \<Rightarrow> string list \<Rightarrow> string" where
  "join d [] = []"
| "join d [f] = f"
| "join d (f # g # fs) = f @ d # join d (g # fs)"

text \<open>
  \<open>p.isdigit()\<close> and \<open>int(p)\<close>. The fields they are applied to come from the group
  \<open>[0-9;]*\<close> of the CSI pattern or from the literal \<open>'0'\<close>, so only ASCII digits occur.
  CPython refuses to convert a decimal string of more than 4300 digits
  (\<open>sys.int_info.default_max_str_digits\<close>, leading zeros counted) with \<open>ValueError\<close>.
\<close>

definition is_digit :: "char \<Rightarrow> bool" where
  "is_digit c = (c \<in> set ''0123456789'')"

definition isdigit :: "string \<Rightarrow> bool" where
  "isdigit p = (p \<noteq> [] \<and> list_all is_digit p)"

definition digit_val :: "char \<Rightarrow> int" where
  "digit_val c = int (of_char c) - 48"

definition max_str_digits :: nat where
  "max_str_digits = 4300"

definition int_of_str :: "string \<Rightarrow> error + int" where
  "int_of_str p =
     (if max_str_digits < length p then Inl ValueError
      else Inr (foldl (\<lambda>a c. 10 * a + digit_val c) 0 p))"

section \<open>The environment: console, WinTerm instance, wrapped destination\<close>

text \<open>The fields of a \<open>WinTerm\<close> instance (\<open>winterm.py\<close>: \<open>_fore\<close> is \<open>wt_fore\<close>, and so on).\<close>

record winterm =
  wt_default_attrs :: int
  wt_fore :: int
  wt_back :: int
  wt_style :: int
  wt_light_mode :: int

text \<open>
  The wrapped destination. \<open>written\<close> holds the argument of every call of
  \<open>wrapped.write\<close>, in order: what the translator emits. \<open>closed_attr\<close> and
  \<open>isatty_attr\<close> are \<open>None\<close> when the object has no such attribute (\<open>StreamWrapper\<close>
  reads both through \<open>getattr\<close> with a default).
\<close>

record dest =
  written :: "string list"
  flushes :: nat
  closed_attr :: "bool option"
  isatty_attr :: "bool option"

text \<open>
  The mutable world a translator acts on: the module global \<open>winterm\<close> (\<open>None\<close> when
  \<open>windll\<close> is \<open>None\<close>), the wrapped destination, the log of native console calls, and
  what the two native calls report (\<open>win32.py\<close> raises \<open>RuntimeError\<close> on a zero result).
\<close>

record world =
  winterm :: "winterm option"
  wrapped :: dest
  attr_calls :: "(int \<times> int) list"
  title_calls :: "string list"
  attr_api_ok :: bool
  title_api_ok :: bool

text \<open>What the constructor reads of the platform.\<close>

record platform =
  on_windows :: bool
  winapi_test :: bool
  pycharm_hosted :: bool
  wrapped_is_std :: bool

type_synonym 'a io = "world \<Rightarrow> 'a \<times> world"

subsection \<open>win32.py\<close>

definition STDOUT :: int where
  "STDOUT = - 11"

definition STDERR :: int where
  "STDERR = - 12"

definition SetConsoleTextAttribute :: "int \<Rightarrow> int \<Rightarrow> error option io" where
  "SetConsoleTextAttribute handle attributes w =
     (if attr_api_ok w then None else Some RuntimeError,
      w\<lparr>attr_calls := attr_calls w @ [(handle, attributes)]\<rparr>)"

definition SetConsoleTitle :: "string \<Rightarrow> error option io" where
  "SetConsoleTitle title w =
     (if title_api_ok w then None else Some RuntimeError,
      w\<lparr>title_calls := title_calls w @ [title]\<rparr>)"

subsection \<open>winterm.py\<close>

definition WinColor_RED :: int where "WinColor_RED = 4"
definition WinColor_BLUE :: int where "WinColor_BLUE = 1"
definition WinColor_GREY :: int where "WinColor_GREY = 7"

definition WinStyle_NORMAL :: int where "WinStyle_NORMAL = 0"
definition WinStyle_BRIGHT :: int where "WinStyle_BRIGHT = 8"
definition WinStyle_BRIGHT_BACKGROUND :: int where "WinStyle_BRIGHT_BACKGROUND = 128"

definition reset_attributes :: "winterm \<Rightarrow> winterm" where
  "reset_attributes self =
     self\<lparr>wt_fore := and (wt_default_attrs self) 7,
          wt_back := and (drop_bit 4 (wt_default_attrs self)) 7,
          wt_style :=
            and (wt_default_attrs self) (or WinStyle_BRIGHT WinStyle_BRIGHT_BACKGROUND)\<rparr>"

text \<open>
  \<open>win32.GetConsoleScreenBufferInfo\<close> is defined without parameter (\<open>win32.py\<close>, line
  88); it returns the buffer information the console reports, of which only
  \<open>wAttributes\<close> is read. Called with any argument it raises \<open>TypeError\<close>.
\<close>

definition GetConsoleScreenBufferInfo :: "int list \<Rightarrow> int \<Rightarrow> error + int" where
  "GetConsoleScreenBufferInfo args wAttributes =
     (if args = [] then Inr wAttributes else Inl TypeError)"

text \<open>
  \<open>WinTerm.__init__\<close> calls \<open>win32.GetConsoleScreenBufferInfo(win32.STDOUT)\<close>, with one
  argument, before it sets any field.
\<close>

definition WinTerm_init :: "int \<Rightarrow> error + winterm" where
  "WinTerm_init wAttributes =
     (case GetConsoleScreenBufferInfo [STDOUT] wAttributes of
        Inl e \<Rightarrow> Inl e
      | Inr a \<Rightarrow>
          Inr (reset_attributes
                 \<lparr>wt_default_attrs = a, wt_fore = 0, wt_back = 0, wt_style = 0,
                  wt_light_mode = 0\<rparr>))"

definition get_attrs :: "winterm \<Rightarrow> int" where
  "get_attrs self =
     wt_fore self + wt_back self * 16 + or (wt_style self) (wt_light_mode self)"

text \<open>
  The methods mutate the instance, which is the module global, and then call the
  console: each takes the instance and the world and stores the instance back.
\<close>

definition set_console_attrs :: "winterm \<Rightarrow> bool \<Rightarrow> error option io" where
  "set_console_attrs self on_stderr w =
     SetConsoleTextAttribute (if \<not> on_stderr then STDOUT else STDERR) (get_attrs self)
       (w\<lparr>winterm := Some self\<rparr>)"

definition WinTerm_reset_all :: "winterm \<Rightarrow> bool \<Rightarrow> error option io" where
  "WinTerm_reset_all self on_stderr w = set_console_attrs (reset_attributes self) on_stderr w"

definition set_foreground :: "winterm \<Rightarrow> int \<Rightarrow> bool \<Rightarrow> bool \<Rightarrow> error option io" where
  "set_foreground self color light on_stderr w =
     set_console_attrs
       (self\<lparr>wt_fore := color, wt_light_mode := (if light then WinStyle_BRIGHT else 0)\<rparr>)
       on_stderr w"

definition set_background :: "winterm \<Rightarrow> int \<Rightarrow> bool \<Rightarrow> bool \<Rightarrow> error option io" where
  "set_background self color light on_stderr w =
     set_console_attrs
       (self\<lparr>wt_back := color, wt_light_mode := (if light then WinStyle_BRIGHT_BACKGROUND else 0)\<rparr>)
       on_stderr w"

definition set_title :: "winterm \<Rightarrow> string \<Rightarrow> error option io" where
  "set_title self title w = SetConsoleTitle title w"

subsection \<open>The wrapped destination\<close>

definition wrapped_write :: "string \<Rightarrow> world \<Rightarrow> world" where
  "wrapped_write s w = w\<lparr>wrapped := (wrapped w)\<lparr>written := written (wrapped w) @ [s]\<rparr>\<rparr>"

definition wrapped_flush :: "world \<Rightarrow> world" where
  "wrapped_flush w = w\<lparr>wrapped := (wrapped w)\<lparr>flushes := Suc (flushes (wrapped w))\<rparr>\<rparr>"

text \<open>\<open>StreamWrapper.closed\<close>: \<open>getattr(wrapped, 'closed', True)\<close>.\<close>

definition stream_closed :: "dest \<Rightarrow> bool" where
  "stream_closed d = (case closed_attr d of None \<Rightarrow> True | Some b \<Rightarrow> b)"

text \<open>\<open>StreamWrapper.isatty\<close>.\<close>

definition stream_isatty :: "platform \<Rightarrow> dest \<Rightarrow> bool" where
  "stream_isatty p d =
     (if pycharm_hosted p then wrapped_is_std p
      else (case isatty_attr d of None \<Rightarrow> False | Some b \<Rightarrow> b))"

section \<open>The two patterns of \<open>AnsiToWin32\<close>\<close>

text \<open>
  \<open>ANSI_CSI_RE = \033\[([0-9;]*)m\<close>, tried at the head of a string: the introducer,
  the longest run of digits and semicolons, then \<open>m\<close>. The star is greedy, and giving
  characters back never helps, since every character it gives back is a digit or a
  semicolon and so not \<open>m\<close>. The result is the group and the length of the match.
\<close>

definition is_param :: "char \<Rightarrow> bool" where
  "is_param c = (is_digit c \<or> c = CHR '';'')"

fun match_csi :: "string \<Rightarrow> (string \<times> nat) option" where
  "match_csi (c1 # c2 # rest) =
     (if c1 = ESC \<and> c2 = CHR ''[''
      then (case dropWhile is_param rest of
              [] \<Rightarrow> None
            | c # _ \<Rightarrow>
                (if c = CHR ''m''
                 then Some (takeWhile is_param rest, length (takeWhile is_param rest) + 3)
                 else None))
      else None)"
| "match_csi _ = None"

text \<open>
  \<open>ANSI_OSC_RE = \033\](.*?)(\x07)\<close>, tried at the head of a string: the introducer,
  the shortest run of characters other than a newline that is followed by BEL. The
  second group is always BEL, so the test \<open>command == '\x07'\<close> of \<open>convert_osc\<close> always
  succeeds and is not modelled.
\<close>

definition is_osc_body :: "char \<Rightarrow> bool" where
  "is_osc_body c = (c \<noteq> BEL \<and> c \<noteq> NL)"

fun match_osc :: "string \<Rightarrow> (string \<times> nat) option" where
  "match_osc (c1 # c2 # rest) =
     (if c1 = ESC \<and> c2 = CHR '']''
      then (case dropWhile is_osc_body rest of
              [] \<Rightarrow> None
            | c # _ \<Rightarrow>
                (if c = BEL
                 then Some (takeWhile is_osc_body rest,
                            length (takeWhile is_osc_body rest) + 3)
                 else None))
      else None)"
| "match_osc _ = None"

text \<open>
  \<open>pattern.finditer(text)\<close>: the non-overlapping matches from left to right, each as
  \<open>(start, end, group)\<close>. The first argument is the offset of the remaining string in
  the text. A match is at least three characters long, so what follows it is
  \<open>drop (n - 1)\<close> of the tail.
\<close>

fun finditer :: "(string \<Rightarrow> (string \<times> nat) option) \<Rightarrow> nat \<Rightarrow> string \<Rightarrow> (nat \<times> nat \<times> string) list" where
  "finditer m i [] = []"
| "finditer m i (c # cs) =
     (case m (c # cs) of
        None \<Rightarrow> finditer m (Suc i) cs
      | Some (g, n) \<Rightarrow> (i, i + n, g) # finditer m (i + n) (drop (n - 1) cs))"

section \<open>\<open>AnsiToWin32\<close>\<close>

text \<open>
  Line 23 of the module, \<open>winterm = WinTerm() if windll is not None else None\<close>, run
  when the module is loaded: the value of the global, or the exception that ends the
  import.
\<close>

definition module_winterm :: "bool \<Rightarrow> int \<Rightarrow> error + winterm option" where
  "module_winterm windll_present wAttributes =
     (if windll_present
      then (case WinTerm_init wAttributes of Inl e \<Rightarrow> Inl e | Inr self \<Rightarrow> Inr (Some self))
      else Inr None)"

text \<open>
  An entry \<open>(func, *args)\<close> of the table \<open>win32_calls\<close> is a bound method of the
  \<open>WinTerm\<close> instance with its positional arguments. The flag \<open>debug\<close> only adds
  logging calls and is left out of the translator.
\<close>

datatype win32_call =
  Reset_all
| Set_foreground int bool
| Set_background int bool

record translator =
  convert :: bool
  strip :: bool
  autoreset :: bool
  win32_calls :: "int \<Rightarrow> win32_call option"

text \<open>
  \<open>func(*args)\<close>: the method runs on the instance the global \<open>winterm\<close> holds. A
  bound method exists only together with its instance; on a world without instance
  the call is the failed lookup \<open>winterm.method\<close>.
\<close>

definition exec_call :: "win32_call \<Rightarrow> error option io" where
  "exec_call c w =
     (case winterm w of
        None \<Rightarrow> (Some AttributeError, w)
      | Some self \<Rightarrow>
          (case c of
             Reset_all \<Rightarrow> WinTerm_reset_all self False w
           | Set_foreground color light \<Rightarrow> set_foreground self color light False w
           | Set_background color light \<Rightarrow> set_background self color light False w))"

text \<open>
  \<open>get_win32_calls\<close>. With \<open>convert\<close> set and a \<open>WinTerm\<close> instance present, the dict
  literal is evaluated entry by entry: \<open>winterm.reset_all\<close> exists, but the next value
  reads \<open>winterm.style\<close>, and class \<open>WinTerm\<close> defines no attribute \<open>style\<close> (nor
  \<open>fore\<close>, nor \<open>back\<close>: its methods are \<open>set_foreground\<close> and \<open>set_background\<close>, its
  fields \<open>_style\<close>, \<open>_fore\<close>, \<open>_back\<close>), so the lookup raises \<open>AttributeError\<close> before any
  table is built.
\<close>

definition get_win32_calls :: "bool \<Rightarrow> world \<Rightarrow> error + (int \<Rightarrow> win32_call option)" where
  "get_win32_calls conv w =
     (if \<not> (conv \<and> winterm w \<noteq> None) then Inr Map.empty else Inl AttributeError)"

definition default_conversion :: "platform \<Rightarrow> dest \<Rightarrow> bool" where
  "default_conversion p d = (on_windows p \<and> winapi_test p \<and> stream_isatty p d)"

text \<open>
  \<open>__init__\<close>: the arguments \<open>convert\<close> and \<open>strip\<close> are \<open>None\<close> or a truth value. The
  two flags are computed first (lines 75 and 76), then the table.
\<close>

definition init_convert :: "bool option \<Rightarrow> platform \<Rightarrow> dest \<Rightarrow> bool" where
  "init_convert conv p d = (case conv of Some b \<Rightarrow> b | None \<Rightarrow> default_conversion p d)"

definition init_strip :: "bool option \<Rightarrow> bool \<Rightarrow> bool" where
  "init_strip strp conv = (case strp of Some b \<Rightarrow> b | None \<Rightarrow> \<not> conv)"

definition init :: "bool option \<Rightarrow> bool option \<Rightarrow> bool \<Rightarrow> platform \<Rightarrow> world \<Rightarrow> error + translator" where
  "init conv strp ar p w =
     (case get_win32_calls (init_convert conv p (wrapped w)) w of
        Inl e \<Rightarrow> Inl e
      | Inr tbl \<Rightarrow>
          Inr \<lparr>convert = init_convert conv p (wrapped w),
               strip = init_strip strp (init_convert conv p (wrapped w)),
               autoreset = ar,
               win32_calls = tbl\<rparr>)"

text \<open>The three modes of the specification, read off the two flags as \<open>write\<close> tests them.\<close>

datatype mode = Convert | Strip | Passthrough

definition mode_of :: "bool \<Rightarrow> bool \<Rightarrow> mode" where
  "mode_of conv strp = (if conv then Convert else if strp then Strip else Passthrough)"

subsection \<open>\<open>handle_ansi_sequence\<close>\<close>

text \<open>
  The list comprehension \<open>[int(p) for p in paramstring.split(';') if p.isdigit()]\<close> is
  evaluated in full, from left to right, before the loop over the parameters starts.
\<close>

fun ints_of :: "string list \<Rightarrow> error + int list" where
  "ints_of [] = Inr []"
| "ints_of (p # ps) =
     (case int_of_str p of
        Inl e \<Rightarrow> Inl e
      | Inr n \<Rightarrow> (case ints_of ps of Inl e \<Rightarrow> Inl e | Inr ns \<Rightarrow> Inr (n # ns)))"

definition params_of :: "string \<Rightarrow> error + int list" where
  "params_of paramstring = ints_of (filter isdigit (split_on (CHR '';'') paramstring))"

fun call_params :: "translator \<Rightarrow> int list \<Rightarrow> error option io" where
  "call_params t [] w = (None, w)"
| "call_params t (param # params) w =
     (case win32_calls t param of
        None \<Rightarrow> call_params t params w
      | Some c \<Rightarrow>
          (case exec_call c w of
             (Some e, w') \<Rightarrow> (Some e, w')
           | (None, w') \<Rightarrow> call_params t params w'))"

definition handle_ansi_sequence :: "translator \<Rightarrow> string \<Rightarrow> error option io" where
  "handle_ansi_sequence t paramstring w =
     (case params_of paramstring of
        Inl e \<Rightarrow> (Some e, w)
      | Inr params \<Rightarrow> call_params t params w)"

subsection \<open>\<open>write_plain_text\<close>, \<open>convert_osc\<close>, \<open>process_text\<close>\<close>

definition write_plain_text :: "string \<Rightarrow> nat \<Rightarrow> nat \<Rightarrow> world \<Rightarrow> world" where
  "write_plain_text text start end w =
     (if start < end then wrapped_flush (wrapped_write (slice text start end) w) else w)"

text \<open>
  \<open>convert_osc\<close>: the iterator runs over the string the method was called with, while
  the loop body cuts each match out of the current value of \<open>text\<close>, at the offsets the
  match has in the original string. \<open>winterm.set_title\<close> is looked up before
  \<open>params[1]\<close> is evaluated.
\<close>

fun osc_loop :: "(nat \<times> nat \<times> string) list \<Rightarrow> string \<Rightarrow> (error + string) io" where
  "osc_loop [] text w = (Inr text, w)"
| "osc_loop ((start, end, paramstring) # ms) text w =
     (case split_on (CHR '';'') paramstring of
        [] \<Rightarrow> (Inl IndexError, w)
      | p0 # ps \<Rightarrow>
          (if str_in p0 ''02''
           then (case winterm w of
                   None \<Rightarrow> (Inl AttributeError, w)
                 | Some self \<Rightarrow>
                     (case ps of
                        [] \<Rightarrow> (Inl IndexError, w)
                      | p1 # _ \<Rightarrow>
                          (case set_title self p1 w of
                             (Some e, w') \<Rightarrow> (Inl e, w')
                           | (None, w') \<Rightarrow> osc_loop ms (take start text @ drop end text) w')))
           else osc_loop ms (take start text @ drop end text) w))"

definition convert_osc :: "string \<Rightarrow> (error + string) io" where
  "convert_osc text w = osc_loop (finditer match_osc 0 text) text w"

fun csi_loop :: "translator \<Rightarrow> string \<Rightarrow> nat \<Rightarrow> (nat \<times> nat \<times> string) list \<Rightarrow> error option io" where
  "csi_loop t text cursor [] w = (None, write_plain_text text cursor (length text) w)"
| "csi_loop t text cursor ((start, end, paramstring) # ms) w =
     (case handle_ansi_sequence t paramstring (write_plain_text text cursor start w) of
        (Some e, w') \<Rightarrow> (Some e, w')
      | (None, w') \<Rightarrow> csi_loop t text end ms w')"

definition process_text :: "translator \<Rightarrow> string \<Rightarrow> error option io" where
  "process_text t text w =
     (case convert_osc text w of
        (Inl e, w') \<Rightarrow> (Some e, w')
      | (Inr text', w') \<Rightarrow> csi_loop t text' 0 (finditer match_csi 0 text') w')"

subsection \<open>\<open>reset_all\<close> and \<open>write\<close>\<close>

text \<open>\<open>AnsiToWin32.write\<close> is \<open>write_text\<close> here.\<close>

text \<open>\<open>Style.RESET_ALL\<close> is \<open>code_to_chars(0)\<close>, the string \<open>\033[0m\<close>.\<close>

definition Style_RESET_ALL :: string where
  "Style_RESET_ALL = [ESC, CHR ''['', CHR ''0'', CHR ''m'']"

definition reset_all :: "translator \<Rightarrow> error option io" where
  "reset_all t w =
     (if convert t then handle_ansi_sequence t ''0'' w
      else if \<not> strip t \<and> \<not> stream_closed (wrapped w)
           then (None, wrapped_write Style_RESET_ALL w)
           else (None, w))"

definition write_text :: "translator \<Rightarrow> string \<Rightarrow> error option io" where
  "write_text t text w =
     (case (if strip t \<or> convert t then process_text t text w
            else (None, wrapped_write text w)) of
        (Some e, w') \<Rightarrow> (Some e, w')
      | (None, w') \<Rightarrow> (if autoreset t then reset_all t w' else (None, w')))"

subsection \<open>Observations and example configurations\<close>

text \<open>The bytes one call of \<open>write\<close> adds to what the destination has received.\<close>

definition emitted_by :: "translator \<Rightarrow> world \<Rightarrow> string \<Rightarrow> string" where
  "emitted_by t w text =
     concat (drop (length (written (wrapped w))) (written (wrapped (snd (write_text t text w)))))"

text \<open>
  An open, interactive destination that has received nothing, and the world of a loaded
  module: \<open>winterm\<close> is \<open>None\<close> and no native call has been made.
\<close>

definition tty_dest :: dest where
  "tty_dest = \<lparr>written = [], flushes = 0, closed_attr = Some False, isatty_attr = Some True\<rparr>"

definition posix_world :: world where
  "posix_world =
     \<lparr>winterm = None, wrapped = tty_dest, attr_calls = [], title_calls = [],
      attr_api_ok = True, title_api_ok = True\<rparr>"

definition posix_platform :: platform where
  "posix_platform =
     \<lparr>on_windows = False, winapi_test = False, pycharm_hosted = False, wrapped_is_std = True\<rparr>"

definition windows_platform :: platform where
  "windows_platform =
     \<lparr>on_windows = True, winapi_test = True, pycharm_hosted = False, wrapped_is_std = True\<rparr>"

text \<open>Translators as the constructor leaves them when no table is built.\<close>

definition plain_translator :: "bool \<Rightarrow> bool \<Rightarrow> bool \<Rightarrow> translator" where
  "plain_translator conv strp ar =
     \<lparr>convert = conv, strip = strp, autoreset = ar, win32_calls = Map.empty\<rparr>"

text \<open>
  A text holds a complete sequence of a pattern when the pattern matches at some
  position of it.
\<close>

fun matches_somewhere :: "(string \<Rightarrow> (string \<times> nat) option) \<Rightarrow> string \<Rightarrow> bool" where
  "matches_somewhere m [] = False"
| "matches_somewhere m (c # cs) = (m (c # cs) \<noteq> None \<or> matches_somewhere m cs)"

section \<open>Scanning text without complete sequences\<close>

lemma match_csi_head: "ESC \<noteq> c \<Longrightarrow> match_csi (c # cs) = None"
  by (cases cs) auto

lemma match_osc_head: "ESC \<noteq> c \<Longrightarrow> match_osc (c # cs) = None"
  by (cases cs) auto

lemma finditer_no_ESC:
  assumes head: "\<And>c cs. ESC \<noteq> c \<Longrightarrow> m (c # cs) = None"
  shows "ESC \<notin> set s \<Longrightarrow> finditer m i s = []"
  by (induction s arbitrary: i) (simp_all add: head)

lemma finditer_skip_prefix:
  assumes head: "\<And>c cs. ESC \<noteq> c \<Longrightarrow> m (c # cs) = None"
  shows "ESC \<notin> set pre \<Longrightarrow> finditer m i (pre @ s) = finditer m (i + length pre) s"
  by (induction pre arbitrary: i) (simp_all add: head)

section \<open>Native calls leave the destination alone\<close>

lemma exec_call_wrapped: "wrapped (snd (exec_call c w)) = wrapped w"
  by (simp add: exec_call_def WinTerm_reset_all_def set_foreground_def set_background_def
      set_console_attrs_def SetConsoleTextAttribute_def split: option.splits win32_call.splits)

lemma exec_call_title_calls: "title_calls (snd (exec_call c w)) = title_calls w"
  by (simp add: exec_call_def WinTerm_reset_all_def set_foreground_def set_background_def
      set_console_attrs_def SetConsoleTextAttribute_def split: option.splits win32_call.splits)

lemma call_params_wrapped: "wrapped (snd (call_params t ps w)) = wrapped w"
proof (induction ps arbitrary: w)
  case Nil
  show ?case by simp
next
  case (Cons p ps)
  show ?case
  proof (cases "win32_calls t p")
    case None
    then show ?thesis using Cons.IH by simp
  next
    case (Some c)
    obtain e w' where r: "exec_call c w = (e, w')" by (cases "exec_call c w")
    have w': "wrapped w' = wrapped w" using exec_call_wrapped [of c w] r by simp
    show ?thesis using Some r w' Cons.IH [of w'] by (cases e) simp_all
  qed
qed

lemma call_params_title_calls: "title_calls (snd (call_params t ps w)) = title_calls w"
proof (induction ps arbitrary: w)
  case Nil
  show ?case by simp
next
  case (Cons p ps)
  show ?case
  proof (cases "win32_calls t p")
    case None
    then show ?thesis using Cons.IH by simp
  next
    case (Some c)
    obtain e w' where r: "exec_call c w = (e, w')" by (cases "exec_call c w")
    have w': "title_calls w' = title_calls w" using exec_call_title_calls [of c w] r by simp
    show ?thesis using Some r w' Cons.IH [of w'] by (cases e) simp_all
  qed
qed

lemma handle_ansi_sequence_wrapped:
  "wrapped (snd (handle_ansi_sequence t ps w)) = wrapped w"
  by (simp add: handle_ansi_sequence_def call_params_wrapped split: sum.splits)

section \<open>Plain text\<close>

lemma convert_osc_plain: "ESC \<notin> set text \<Longrightarrow> convert_osc text w = (Inr text, w)"
  by (simp add: convert_osc_def finditer_no_ESC [of match_osc, OF match_osc_head])

lemma process_text_plain:
  "ESC \<notin> set text \<Longrightarrow>
   process_text t text w = (None, write_plain_text text 0 (length text) w)"
  by (simp add: process_text_def convert_osc_plain
      finditer_no_ESC [of match_csi, OF match_csi_head])

lemma write_plain_text_empty: "write_plain_text text n n w = w"
  by (simp add: write_plain_text_def)

lemma written_write_plain_text_all:
  "written (wrapped (write_plain_text text 0 (length text) w))
     = written (wrapped w) @ (if text = [] then [] else [text])"
  by (simp add: write_plain_text_def wrapped_flush_def wrapped_write_def slice_def)

lemma reset_all_written:
  "written (wrapped (snd (reset_all t w))) =
     written (wrapped w) @
       (if mode_of (convert t) (strip t) = Passthrough \<and> \<not> stream_closed (wrapped w)
        then [Style_RESET_ALL] else [])"
  by (simp add: reset_all_def mode_of_def handle_ansi_sequence_wrapped wrapped_write_def)

lemma write_text_plain_written:
  assumes "ESC \<notin> set text"
  shows "written (wrapped (snd (write_text t text w))) =
     written (wrapped w) @
       (if mode_of (convert t) (strip t) = Passthrough \<or> text \<noteq> [] then [text] else []) @
       (if autoreset t \<and> mode_of (convert t) (strip t) = Passthrough
           \<and> \<not> stream_closed (wrapped w)
        then [Style_RESET_ALL] else [])"
proof (cases "strip t \<or> convert t")
  case True
  then have m: "mode_of (convert t) (strip t) \<noteq> Passthrough"
    by (auto simp: mode_of_def)
  have p: "process_text t text w = (None, write_plain_text text 0 (length text) w)"
    using assms by (rule process_text_plain)
  show ?thesis
    using True m p
    by (cases "text = []")
      (simp_all add: write_text_def reset_all_written written_write_plain_text_all
        write_plain_text_empty)
next
  case False
  then have m: "mode_of (convert t) (strip t) = Passthrough"
    by (simp add: mode_of_def)
  have c: "stream_closed (wrapped (wrapped_write text w)) = stream_closed (wrapped w)"
    by (simp add: wrapped_write_def stream_closed_def)
  show ?thesis
    using False m c
    by (simp add: write_text_def reset_all_written) (simp add: wrapped_write_def)
qed

lemma emitted_by_plain:
  assumes "ESC \<notin> set text"
  shows "emitted_by t w text =
     text @ (if autoreset t \<and> mode_of (convert t) (strip t) = Passthrough
                \<and> \<not> stream_closed (wrapped w)
             then Style_RESET_ALL else [])"
  unfolding emitted_by_def write_text_plain_written [OF assms] by auto

text \<open>
  C1 (as amended). A \<open>write\<close> of a text without ESC emits exactly the text in Strip and
  in Convert mode, and in Passthrough mode when \<open>autoreset\<close> is off or the destination
  is closed. In Passthrough mode with \<open>autoreset\<close> on and the destination open the text
  is followed by the reset sequence \<open>\033[0m\<close>, which \<open>reset_all\<close> writes.
\<close>

theorem write_plain_round_trip:
  assumes "ESC \<notin> set text"
  shows "emitted_by t w text =
     text @ (if autoreset t \<and> mode_of (convert t) (strip t) = Passthrough
                \<and> \<not> stream_closed (wrapped w)
             then Style_RESET_ALL else [])"
  using assms by (rule emitted_by_plain)

text \<open>The three modes, \<open>autoreset\<close> off, on the text \<open>plain text\<close>.\<close>

theorem write_plain_round_trip_witness:
  "ESC \<notin> set ''plain text'' \<and>
   emitted_by (plain_translator False True False) posix_world ''plain text'' = ''plain text'' \<and>
   emitted_by (plain_translator True False False) posix_world ''plain text'' = ''plain text'' \<and>
   emitted_by (plain_translator False False False) posix_world ''plain text'' = ''plain text''"
proof -
  have h: "ESC \<notin> set ''plain text''" by (simp add: ESC_def)
  show ?thesis
    using h write_plain_round_trip [OF h, of "plain_translator False True False" posix_world]
      write_plain_round_trip [OF h, of "plain_translator True False False" posix_world]
      write_plain_round_trip [OF h, of "plain_translator False False False" posix_world]
    by (simp add: plain_translator_def mode_of_def)
qed

text \<open>
  C1 as stated fails: the translator built with \<open>convert=False, strip=False,
  autoreset=True\<close> emits \<open>hi\<close> followed by \<open>\033[0m\<close> for the text \<open>hi\<close>.
\<close>

theorem passthrough_autoreset_counterexample:
  "ESC \<notin> set ''hi'' \<and>
   init (Some False) (Some False) True posix_platform posix_world
     = Inr (plain_translator False False True) \<and>
   emitted_by (plain_translator False False True) posix_world ''hi''
     = ''hi'' @ Style_RESET_ALL \<and>
   emitted_by (plain_translator False False True) posix_world ''hi'' \<noteq> ''hi''"
  by (simp add: ESC_def init_def init_convert_def init_strip_def get_win32_calls_def
      plain_translator_def emitted_by_def write_text_def reset_all_def wrapped_write_def
      posix_world_def tty_dest_def stream_closed_def Style_RESET_ALL_def)

section \<open>Mode resolution at construction\<close>

text \<open>
  C3 (as amended). With neither \<open>convert\<close> nor \<open>strip\<close> given, the constructor sets
  \<open>convert\<close> exactly when the platform is Windows, \<open>winapi_test()\<close> succeeds and
  \<open>stream.isatty()\<close> holds, and otherwise sets \<open>strip\<close> (line 76: \<open>not self.convert\<close>):
  the mode is Convert under the three conditions and Strip in every other case, whether
  or not the destination is interactive. Passthrough never results from Auto.
\<close>

theorem auto_resolution:
  "mode_of (init_convert None p d) (init_strip None (init_convert None p d)) =
     (if on_windows p \<and> winapi_test p \<and> stream_isatty p d then Convert else Strip)"
  by (simp add: init_convert_def init_strip_def default_conversion_def mode_of_def)

theorem auto_resolution_witness:
  "mode_of (init_convert None windows_platform tty_dest)
     (init_strip None (init_convert None windows_platform tty_dest)) = Convert \<and>
   mode_of (init_convert None posix_platform tty_dest)
     (init_strip None (init_convert None posix_platform tty_dest)) = Strip"
proof -
  have a: "on_windows windows_platform \<and> winapi_test windows_platform
      \<and> stream_isatty windows_platform tty_dest"
    by (simp add: windows_platform_def tty_dest_def stream_isatty_def)
  have b: "\<not> on_windows posix_platform"
    by (simp add: posix_platform_def)
  show ?thesis
    using a b auto_resolution [of windows_platform tty_dest]
      auto_resolution [of posix_platform tty_dest]
    by simp
qed

text \<open>
  C3 as stated fails: on a platform other than Windows, with an interactive destination,
  the constructor called without \<open>convert\<close> and \<open>strip\<close> returns a translator in Strip
  mode, not in Passthrough mode.
\<close>

theorem auto_interactive_counterexample:
  "stream_isatty posix_platform (wrapped posix_world) \<and>
   init None None False posix_platform posix_world = Inr (plain_translator False True False) \<and>
   mode_of (convert (plain_translator False True False))
     (strip (plain_translator False True False)) = Strip"
  by (simp add: init_def init_convert_def init_strip_def default_conversion_def
      get_win32_calls_def plain_translator_def mode_of_def posix_platform_def posix_world_def
      tty_dest_def stream_isatty_def)

section \<open>A title sequence without a native console\<close>

text \<open>
  C4 fails on the code. The translator the constructor builds by default on a platform
  without native console is in Strip mode; its \<open>write\<close> of \<open>\033]0;T\x07\<close> reaches
  \<open>winterm.set_title\<close> in \<open>convert_osc\<close> with \<open>winterm\<close> being \<open>None\<close> and raises
  \<open>AttributeError\<close>, with nothing written.
\<close>

theorem strip_osc_title_raises:
  "init None None False posix_platform posix_world = Inr (plain_translator False True False) \<and>
   write_text (plain_translator False True False) (ESC # '']0;T'' @ [BEL]) posix_world
     = (Some AttributeError, posix_world)"
  by (simp add: init_def init_convert_def init_strip_def default_conversion_def
      get_win32_calls_def plain_translator_def posix_platform_def posix_world_def
      tty_dest_def stream_isatty_def write_text_def process_text_def convert_osc_def
      is_osc_body_def ESC_def BEL_def NL_def)

section \<open>\<open>reset_all\<close>\<close>

lemma process_text_reset:
  "process_text t Style_RESET_ALL w = handle_ansi_sequence t ''0'' w"
proof -
  have osc: "convert_osc Style_RESET_ALL w = (Inr Style_RESET_ALL, w)"
    by (simp add: convert_osc_def Style_RESET_ALL_def ESC_def)
  have csi: "finditer match_csi 0 Style_RESET_ALL = [(0, 4, ''0'')]"
    by (simp add: Style_RESET_ALL_def ESC_def is_param_def is_digit_def)
  have len: "length Style_RESET_ALL = 4"
    by (simp add: Style_RESET_ALL_def)
  show ?thesis
    by (cases "handle_ansi_sequence t ''0'' w")
      (simp add: process_text_def osc csi len write_plain_text_empty split: option.splits)
qed

text \<open>
  C7 (as amended). \<open>reset_all\<close> in Convert mode does what processing the text
  \<open>\033[0m\<close>, a CSI token with the single parameter 0, does. In Strip mode it does
  nothing. In Passthrough mode (neither \<open>convert\<close> nor \<open>strip\<close>) it writes the reset
  sequence \<open>\033[0m\<close> to the destination when the destination is open, and nothing when
  it is closed.
\<close>

theorem reset_all_by_mode:
  "reset_all t w =
     (case mode_of (convert t) (strip t) of
        Convert \<Rightarrow> process_text t Style_RESET_ALL w
      | Strip \<Rightarrow> (None, w)
      | Passthrough \<Rightarrow>
          (if stream_closed (wrapped w) then (None, w)
           else (None, wrapped_write Style_RESET_ALL w)))"
  by (simp add: reset_all_def mode_of_def process_text_reset)

theorem reset_all_by_mode_witness:
  "reset_all (plain_translator True False False) posix_world
     = process_text (plain_translator True False False) Style_RESET_ALL posix_world \<and>
   reset_all (plain_translator False True False) posix_world = (None, posix_world) \<and>
   reset_all (plain_translator False False False) posix_world
     = (None, wrapped_write Style_RESET_ALL posix_world)"
  using reset_all_by_mode [of "plain_translator True False False" posix_world]
    reset_all_by_mode [of "plain_translator False True False" posix_world]
    reset_all_by_mode [of "plain_translator False False False" posix_world]
  by (simp add: plain_translator_def mode_of_def posix_world_def tty_dest_def
      stream_closed_def)

text \<open>
  C7 as stated fails: in Strip mode, on an open destination, \<open>reset_all\<close> writes nothing.
\<close>

theorem strip_reset_all_counterexample:
  "mode_of (convert (plain_translator False True False))
     (strip (plain_translator False True False)) = Strip \<and>
   \<not> stream_closed (wrapped posix_world) \<and>
   reset_all (plain_translator False True False) posix_world = (None, posix_world) \<and>
   written (wrapped (snd (reset_all (plain_translator False True False) posix_world))) = []"
  by (simp add: reset_all_def plain_translator_def mode_of_def posix_world_def tty_dest_def
      stream_closed_def)

section \<open>What the constructor can return\<close>

lemma module_winterm_None: "module_winterm windll_present a = Inr g \<Longrightarrow> g = None"
  by (simp add: module_winterm_def WinTerm_init_def GetConsoleScreenBufferInfo_def
      split: if_splits)

lemma init_table_empty:
  assumes "init conv strp ar p w0 = Inr t"
  shows "win32_calls t = Map.empty"
  using assms by (auto simp: init_def get_win32_calls_def split: if_splits)

lemma call_params_empty:
  assumes "win32_calls t = Map.empty"
  shows "call_params t ps w = (None, w)"
  using assms by (induction ps) simp_all


section \<open>\<open>split\<close> and \<open>join\<close>\<close>

text \<open>
  The fields \<open>split_on\<close> returns are those of \<open>str.split\<close>: joined with the
  separator they give the string back, and none of them holds the separator.
\<close>

lemma split_on_not_Nil: "split_on d s \<noteq> []"
  by (induction s) (auto split: list.splits)

lemma join_Cons_Cons: "join d ((c # f) # fs) = c # join d (f # fs)"
  by (cases fs) simp_all

lemma join_Nil_Cons: "fs \<noteq> [] \<Longrightarrow> join d ([] # fs) = d # join d fs"
  by (cases fs) simp_all

lemma join_split_on: "join d (split_on d s) = s"
proof (induction s)
  case Nil
  show ?case by simp
next
  case (Cons c s)
  obtain f fs where sp: "split_on d s = f # fs"
    using split_on_not_Nil [of d s] by (cases "split_on d s") auto
  show ?case using Cons.IH sp
    by (simp add: join_Cons_Cons join_Nil_Cons del: join.simps)
qed

lemma split_on_fields: "f \<in> set (split_on d s) \<Longrightarrow> d \<notin> set f"
proof (induction s arbitrary: f)
  case Nil
  then show ?case by simp
next
  case (Cons c s)
  obtain g gs where sp: "split_on d s = g # gs"
    using split_on_not_Nil [of d s] by (cases "split_on d s") auto
  show ?case
  proof (cases "c = d")
    case True
    then show ?thesis using Cons by auto
  next
    case False
    then have "f = c # g \<or> f \<in> set gs" using Cons.prems sp by auto
    then show ?thesis using False Cons.IH sp by auto
  qed
qed

section \<open>CSI tokens in Convert mode\<close>










lemma params_of_0: "params_of ''0'' = Inr [0]"
  by (simp add: params_of_def isdigit_def is_digit_def int_of_str_def max_str_digits_def
      digit_val_def)

lemma reset_all_empty:
  assumes "win32_calls t = Map.empty" and "convert t"
  shows "reset_all t w = (None, w)"
  using assms
  by (simp add: reset_all_def handle_ansi_sequence_def params_of_0 call_params_empty
      del: call_params.simps)




section \<open>OSC title sequences\<close>

text \<open>
  C5 fails on the code. The module loads with \<open>winterm\<close> being \<open>None\<close>; the write of
  \<open>\033]0;My Title\x07\<close> by the translator built with \<open>convert=True\<close> reaches
  \<open>winterm.set_title\<close> in \<open>convert_osc\<close> and raises \<open>AttributeError\<close>. No native
  title call is made, where the claim has exactly one.
\<close>

theorem title_write_raises:
  "module_winterm False 7 = Inr (winterm posix_world) \<and>
   init (Some True) None False posix_platform posix_world
     = Inr (plain_translator True False False) \<and>
   write_text (plain_translator True False False) (ESC # '']0;My Title'' @ [BEL]) posix_world
     = (Some AttributeError, posix_world) \<and>
   title_calls (snd (write_text (plain_translator True False False)
     (ESC # '']0;My Title'' @ [BEL]) posix_world)) = []"
  by (simp add: module_winterm_def init_def init_convert_def init_strip_def
      get_win32_calls_def plain_translator_def posix_world_def tty_dest_def write_text_def
      process_text_def convert_osc_def is_osc_body_def ESC_def BEL_def NL_def)

text \<open>
  C10 fails on the code. For \<open>\033];T\x07\<close> the parameter string \<open>;T\<close> splits into an
  empty first field and \<open>T\<close>, and the empty field passes the substring test
  \<open>params[0] in '02'\<close>; but the title call the claim describes is not made:
  \<open>winterm\<close> is \<open>None\<close> and \<open>convert_osc\<close> raises \<open>AttributeError\<close>. A sequence whose
  first field is \<open>1\<close> fails the test and is cut from the text without error.
\<close>

theorem empty_kind_title_raises:
  "module_winterm False 7 = Inr (winterm posix_world) \<and>
   split_on (CHR '';'') '';T'' = [[], ''T''] \<and>
   str_in [] ''02'' \<and>
   convert_osc (ESC # ''];T'' @ [BEL]) posix_world = (Inl AttributeError, posix_world) \<and>
   title_calls (snd (convert_osc (ESC # ''];T'' @ [BEL]) posix_world)) = [] \<and>
   convert_osc (ESC # '']1;T'' @ [BEL]) posix_world = (Inr [], posix_world)"
  by (simp add: module_winterm_def posix_world_def tty_dest_def convert_osc_def
      is_osc_body_def ESC_def BEL_def NL_def)

section \<open>Texts without complete sequence\<close>

lemma finditer_unmatched: "\<not> matches_somewhere m s \<Longrightarrow> finditer m i s = []"
proof (induction s arbitrary: i)
  case Nil
  show ?case by simp
next
  case (Cons c cs)
  show ?case
  proof (cases "m (c # cs)")
    case None
    then show ?thesis using Cons by simp
  next
    case (Some x)
    then show ?thesis using Cons.prems by simp
  qed
qed

lemma finditer_matched: "matches_somewhere m s \<Longrightarrow> finditer m i s \<noteq> []"
  by (induction s arbitrary: i) (auto split: option.splits)

lemma process_text_unmatched:
  assumes "\<not> matches_somewhere match_osc text" and "\<not> matches_somewhere match_csi text"
  shows "process_text t text w = (None, write_plain_text text 0 (length text) w)"
  using assms by (simp add: process_text_def convert_osc_def finditer_unmatched)

lemma fst_reset_all_not_convert: "\<not> convert t \<Longrightarrow> fst (reset_all t w) = None"
  by (simp add: reset_all_def)

text \<open>
  C8 (as amended). For every translator the constructor returns: in Passthrough mode,
  for every input, and in Strip and Convert mode, for every input in which no
  introducer is completed to a sequence (neither pattern matches anywhere, as in
  \<open>abc\033[31\<close>), \<open>write\<close> raises nothing and passes the entire input, dangling
  partial sequences included, to \<open>wrapped.write\<close> as one chunk (no chunk for the empty
  input in Strip and Convert mode), followed only, in Passthrough mode with
  \<open>autoreset\<close> on and the destination open, by the reset sequence.
\<close>

theorem unterminated_forwarded_whole:
  assumes "init conv strp ar p w0 = Inr t"
    and "mode_of (convert t) (strip t) = Passthrough
      \<or> (\<not> matches_somewhere match_csi text \<and> \<not> matches_somewhere match_osc text)"
  shows "fst (write_text t text w) = None \<and>
     written (wrapped (snd (write_text t text w))) =
       written (wrapped w) @
         (if mode_of (convert t) (strip t) = Passthrough \<or> text \<noteq> [] then [text] else []) @
         (if autoreset t \<and> mode_of (convert t) (strip t) = Passthrough
             \<and> \<not> stream_closed (wrapped w)
          then [Style_RESET_ALL] else [])"
proof (cases "strip t \<or> convert t")
  case False
  then have m: "mode_of (convert t) (strip t) = Passthrough"
    by (simp add: mode_of_def)
  have c: "stream_closed (wrapped (wrapped_write text w)) = stream_closed (wrapped w)"
    by (simp add: wrapped_write_def stream_closed_def)
  have wr: "written (wrapped (wrapped_write text w)) = written (wrapped w) @ [text]"
    by (simp add: wrapped_write_def)
  have w: "write_text t text w =
      (if autoreset t then reset_all t (wrapped_write text w)
       else (None, wrapped_write text w))"
    using False by (simp add: write_text_def)
  have one: "fst (write_text t text w) = None"
    using False by (simp add: w fst_reset_all_not_convert)
  have two: "written (wrapped (snd (write_text t text w))) =
      written (wrapped w) @ [text] @
        (if autoreset t \<and> \<not> stream_closed (wrapped w) then [Style_RESET_ALL] else [])"
    by (simp add: w reset_all_written m c wr)
  show ?thesis using one two m by simp
next
  case True
  then have m: "mode_of (convert t) (strip t) \<noteq> Passthrough"
    by (auto simp: mode_of_def)
  then have u: "\<not> matches_somewhere match_osc text" "\<not> matches_somewhere match_csi text"
    using assms(2) by simp_all
  let ?W = "write_plain_text text 0 (length text) w"
  have p: "process_text t text w = (None, ?W)"
    using u by (rule process_text_unmatched)
  have w: "write_text t text w = (if autoreset t then reset_all t ?W else (None, ?W))"
    using True p by (simp add: write_text_def)
  have e: "win32_calls t = Map.empty"
    using assms(1) by (rule init_table_empty)
  have r: "fst (reset_all t ?W) = None"
  proof (cases "convert t")
    case True
    then show ?thesis using reset_all_empty [OF e True, of ?W] by simp
  next
    case False
    then show ?thesis by (rule fst_reset_all_not_convert)
  qed
  have one: "fst (write_text t text w) = None"
    by (simp add: w r)
  have two: "written (wrapped (snd (write_text t text w))) =
      written (wrapped w) @ (if text = [] then [] else [text])"
    using m
    by (simp add: w reset_all_written written_write_plain_text_all write_plain_text_empty)
  show ?thesis using one two m by simp
qed

text \<open>The default translator of a platform other than Windows, on \<open>abc\033[31\<close>.\<close>

theorem unterminated_forwarded_whole_witness:
  "init None None False posix_platform posix_world = Inr (plain_translator False True False) \<and>
   \<not> matches_somewhere match_csi (''abc'' @ ESC # ''[31'') \<and>
   \<not> matches_somewhere match_osc (''abc'' @ ESC # ''[31'') \<and>
   fst (write_text (plain_translator False True False) (''abc'' @ ESC # ''[31'') posix_world)
     = None \<and>
   written (wrapped (snd (write_text (plain_translator False True False)
     (''abc'' @ ESC # ''[31'') posix_world))) = [''abc'' @ ESC # ''[31'']"
proof -
  have i: "init None None False posix_platform posix_world
      = Inr (plain_translator False True False)"
    by (simp add: init_def init_convert_def init_strip_def default_conversion_def
        get_win32_calls_def plain_translator_def posix_platform_def posix_world_def)
  have u: "\<not> matches_somewhere match_csi (''abc'' @ ESC # ''[31'')"
    "\<not> matches_somewhere match_osc (''abc'' @ ESC # ''[31'')"
    by (simp_all add: ESC_def is_param_def is_digit_def)
  have h: "mode_of (convert (plain_translator False True False))
        (strip (plain_translator False True False)) = Passthrough
      \<or> (\<not> matches_somewhere match_csi (''abc'' @ ESC # ''[31'')
          \<and> \<not> matches_somewhere match_osc (''abc'' @ ESC # ''[31''))"
    using u by simp
  have m: "mode_of (convert (plain_translator False True False))
        (strip (plain_translator False True False)) = Strip"
    by (simp add: plain_translator_def mode_of_def)
  have w0: "written (wrapped posix_world) = []"
    by (simp add: posix_world_def tty_dest_def)
  show ?thesis
    using i u m w0 unterminated_forwarded_whole [OF i h, of posix_world]
    by simp
qed

text \<open>
  C8 as stated fails: the input \<open>\033[1mX\033[31\<close> ends with an introducer that has no
  terminator, and in Strip mode only \<open>X\033[31\<close> is forwarded: the complete sequence
  before it is removed.
\<close>

theorem complete_sequence_stripped_counterexample:
  "init None None False posix_platform posix_world = Inr (plain_translator False True False) \<and>
   \<not> matches_somewhere match_csi (ESC # ''[31'') \<and>
   write_text (plain_translator False True False) (ESC # ''[1mX'' @ ESC # ''[31'') posix_world
     = (None, wrapped_flush (wrapped_write (''X'' @ ESC # ''[31'') posix_world)) \<and>
   emitted_by (plain_translator False True False) posix_world (ESC # ''[1mX'' @ ESC # ''[31'')
     = ''X'' @ ESC # ''[31'' \<and>
   ''X'' @ ESC # ''[31'' \<noteq> ESC # ''[1mX'' @ ESC # ''[31''"
  by (simp add: init_def init_convert_def init_strip_def default_conversion_def
      get_win32_calls_def plain_translator_def posix_platform_def posix_world_def
      tty_dest_def emitted_by_def write_text_def process_text_def convert_osc_def
      handle_ansi_sequence_def params_of_def isdigit_def is_digit_def int_of_str_def
      max_str_digits_def digit_val_def is_param_def write_plain_text_def wrapped_write_def
      wrapped_flush_def slice_def reset_all_def ESC_def)

section \<open>Stripping twice\<close>

text \<open>A match is never empty and never longer than the string it is found at.\<close>

lemma match_csi_len:
  assumes a: "match_csi s = Some (g, n)"
  shows "0 < n \<and> n \<le> length s"
proof (cases s)
  case Nil
  then show ?thesis using a by simp
next
  case (Cons c1 s1)
  show ?thesis
  proof (cases s1)
    case Nil
    then show ?thesis using a Cons by simp
  next
    case (Cons c2 rest)
    have l: "length (takeWhile is_param rest) + length (dropWhile is_param rest) = length rest"
      using takeWhile_dropWhile_id [of is_param rest] length_append by metis
    show ?thesis
      using a \<open>s = c1 # s1\<close> Cons l by (auto split: if_splits list.splits)
  qed
qed

lemma match_osc_len:
  assumes a: "match_osc s = Some (g, n)"
  shows "0 < n \<and> n \<le> length s"
proof (cases s)
  case Nil
  then show ?thesis using a by simp
next
  case (Cons c1 s1)
  show ?thesis
  proof (cases s1)
    case Nil
    then show ?thesis using a Cons by simp
  next
    case (Cons c2 rest)
    have l: "length (takeWhile is_osc_body rest) + length (dropWhile is_osc_body rest) = length rest"
      using takeWhile_dropWhile_id [of is_osc_body rest] length_append by metis
    show ?thesis
      using a \<open>s = c1 # s1\<close> Cons l by (auto split: if_splits list.splits)
  qed
qed

lemma write_plain_text_written:
  assumes "b \<le> length text"
  shows "\<exists>chunk. written (wrapped (write_plain_text text a b w)) = written (wrapped w) @ chunk
     \<and> length (concat chunk) = b - a"
proof (cases "a < b")
  case True
  have "written (wrapped (write_plain_text text a b w)) = written (wrapped w) @ [slice text a b]"
    using True by (simp add: write_plain_text_def wrapped_flush_def wrapped_write_def)
  moreover have "length (concat [slice text a b]) = b - a"
    using assms by (simp add: slice_def)
  ultimately show ?thesis by blast
next
  case False
  then have "written (wrapped (write_plain_text text a b w)) = written (wrapped w) @ []"
    by (simp add: write_plain_text_def)
  moreover have "length (concat ([] :: string list)) = b - a"
    using False by simp
  ultimately show ?thesis by blast
qed

text \<open>
  The loop of \<open>process_text\<close> only appends to what the destination has received, and
  what it appends is no longer than the text from the cursor on, and shorter when the
  pattern matches somewhere in it.
\<close>

lemma csi_loop_chunks:
  assumes bound: "\<And>s g n. m s = Some (g, n) \<Longrightarrow> 0 < n \<and> n \<le> length s"
  shows "s = drop i text \<Longrightarrow> i \<le> length text \<Longrightarrow> cursor \<le> i \<Longrightarrow>
     \<exists>chunks. written (wrapped (snd (csi_loop t text cursor (finditer m i s) w)))
         = written (wrapped w) @ chunks
       \<and> length (concat chunks) + (if matches_somewhere m s then 1 else 0)
           \<le> length text - cursor"
proof (induction s arbitrary: i cursor w rule: length_induct)
  case (1 s)
  show ?case
  proof (cases s)
    case Nil
    then have i: "i = length text" using "1.prems" by simp
    obtain chunk where c: "written (wrapped (write_plain_text text cursor (length text) w))
        = written (wrapped w) @ chunk" "length (concat chunk) = length text - cursor"
      using write_plain_text_written [of "length text" "text" cursor w] by auto
    show ?thesis using Nil c by auto
  next
    case (Cons c cs)
    have lt: "i < length text"
      using Cons "1.prems"(1,2) by (metis drop_eq_Nil2 leI list.distinct(1))
    have cs: "cs = drop (Suc i) text"
      using Cons "1.prems"(1) by (metis drop_Suc list.sel(3) tl_drop)
    show ?thesis
    proof (cases "m (c # cs)")
      case None
      have f: "finditer m i s = finditer m (Suc i) cs"
        using Cons None by simp
      have ms: "matches_somewhere m s = matches_somewhere m cs"
        using Cons None by simp
      have "length cs < length s" using Cons by simp
      then obtain chunks where
        "written (wrapped (snd (csi_loop t text cursor (finditer m (Suc i) cs) w)))
           = written (wrapped w) @ chunks"
        "length (concat chunks) + (if matches_somewhere m cs then 1 else 0)
           \<le> length text - cursor"
        using "1.IH" cs lt "1.prems"(3)
        by (metis Suc_leI le_SucI)
      then show ?thesis using f ms by auto
    next
      case (Some x)
      obtain g n where x: "x = (g, n)" by (cases x)
      have n: "0 < n" "n \<le> length s"
        using bound [of "c # cs" g n] Some x Cons by simp_all
      have len: "length s = length text - i"
        using "1.prems"(1) by simp
      have f: "finditer m i s = (i, i + n, g) # finditer m (i + n) (drop (n - 1) cs)"
        using Cons Some x by simp
      have rest: "drop (n - 1) cs = drop (i + n) text"
        using cs n(1) by (simp add: add.commute)
      have in_le: "i + n \<le> length text"
        using n(2) len lt by simp
      obtain chunk1 where c1:
        "written (wrapped (write_plain_text text cursor i w)) = written (wrapped w) @ chunk1"
        "length (concat chunk1) = i - cursor"
        using write_plain_text_written [of i "text" cursor w] lt by auto
      obtain e w2 where h: "handle_ansi_sequence t g (write_plain_text text cursor i w) = (e, w2)"
        by (cases "handle_ansi_sequence t g (write_plain_text text cursor i w)")
      have w2: "wrapped w2 = wrapped (write_plain_text text cursor i w)"
        using handle_ansi_sequence_wrapped [of t g "write_plain_text text cursor i w"] h
        by simp
      show ?thesis
      proof (cases e)
        case (Some err)
        have "snd (csi_loop t text cursor (finditer m i s) w) = w2"
          using f h Some by simp
        then have "written (wrapped (snd (csi_loop t text cursor (finditer m i s) w)))
            = written (wrapped w) @ chunk1"
          using w2 c1(1) by simp
        moreover have "length (concat chunk1) + (if matches_somewhere m s then 1 else 0)
            \<le> length text - cursor"
          using c1(2) lt "1.prems"(3) by auto
        ultimately show ?thesis by blast
      next
        case None
        have step: "csi_loop t text cursor (finditer m i s) w
            = csi_loop t text (i + n) (finditer m (i + n) (drop (n - 1) cs)) w2"
          using f h None by simp
        have "length (drop (n - 1) cs) < length s" using Cons by simp
        then obtain chunks2 where c2:
          "written (wrapped (snd (csi_loop t text (i + n)
              (finditer m (i + n) (drop (n - 1) cs)) w2))) = written (wrapped w2) @ chunks2"
          "length (concat chunks2) + (if matches_somewhere m (drop (n - 1) cs) then 1 else 0)
             \<le> length text - (i + n)"
          using "1.IH" rest in_le by (metis order_refl)
        have "written (wrapped (snd (csi_loop t text cursor (finditer m i s) w)))
            = written (wrapped w) @ (chunk1 @ chunks2)"
          using step c2(1) w2 c1(1) by simp
        moreover have "length (concat (chunk1 @ chunks2))
              + (if matches_somewhere m s then 1 else 0) \<le> length text - cursor"
          using c1(2) c2(2) n(1) in_le "1.prems"(3) by auto
        ultimately show ?thesis by blast
      qed
    qed
  qed
qed


lemma finditer_ordered: "list_all (\<lambda>(st, en, g). st \<le> en) (finditer m i s)"
  by (induction m i s rule: finditer.induct) (auto split: option.splits)

lemma finditer_first:
  assumes bound: "\<And>s g n. m s = Some (g, n) \<Longrightarrow> 0 < n \<and> n \<le> length s"
  shows "finditer m i s = (st, en, g) # ms \<Longrightarrow> st < en \<and> en \<le> i + length s"
proof (induction s arbitrary: i)
  case Nil
  then show ?case by simp
next
  case (Cons c cs)
  show ?case
  proof (cases "m (c # cs)")
    case None
    then have "finditer m (Suc i) cs = (st, en, g) # ms"
      using Cons.prems by simp
    then have "st < en \<and> en \<le> Suc i + length cs" by (rule Cons.IH)
    then show ?thesis by simp
  next
    case (Some x)
    obtain g' n where x: "x = (g', n)" by (cases x)
    have "0 < n \<and> n \<le> length (c # cs)"
      using bound [of "c # cs" g' n] Some x by simp
    moreover have "st = i" "en = i + n"
      using Cons.prems Some x by simp_all
    ultimately show ?thesis by simp
  qed
qed

lemma length_cut: "st \<le> en \<Longrightarrow> length (take st text @ drop en text) \<le> length text"
  by simp

lemma osc_loop_shrinks:
  "list_all (\<lambda>(st, en, g). st \<le> en) ms \<Longrightarrow>
   wrapped (snd (osc_loop ms text w)) = wrapped w \<and>
   (\<forall>text'. fst (osc_loop ms text w) = Inr text' \<longrightarrow> length text' \<le> length text)"
proof (induction ms arbitrary: "text" w)
  case Nil
  show ?case by simp
next
  case (Cons x ms)
  obtain st en g where x: "x = (st, en, g)" by (cases x)
  have ord: "st \<le> en" and rest: "list_all (\<lambda>(st, en, g). st \<le> en) ms"
    using Cons.prems x by simp_all
  let ?cut = "take st text @ drop en text"
  have cut: "length ?cut \<le> length text"
    using ord by (rule length_cut)
  have ih: "\<And>w'. wrapped (snd (osc_loop ms ?cut w')) = wrapped w' \<and>
      (\<forall>text'. fst (osc_loop ms ?cut w') = Inr text' \<longrightarrow> length text' \<le> length text)"
    using Cons.IH [OF rest, of ?cut] cut by (meson le_trans)
  have t: "\<And>self p1. wrapped (snd (set_title self p1 w)) = wrapped w"
    by (simp add: set_title_def SetConsoleTitle_def)
  show ?case
    unfolding x
    using ih [of w] ih t
    by (auto simp: set_title_def SetConsoleTitle_def split: list.splits option.splits
        prod.splits if_splits)
qed


lemma osc_loop_first_shrinks:
  assumes "st < en" and "en \<le> length tx"
    and "list_all (\<lambda>(st, en, g). st \<le> en) ms"
    and "fst (osc_loop ((st, en, g) # ms) tx w) = Inr tx'"
  shows "length tx' < length tx"
proof -
  let ?cut = "take st tx @ drop en tx"
  have cut: "length ?cut < length tx"
    using assms(1,2) by simp
  have ih: "\<And>w'. \<forall>t'. fst (osc_loop ms ?cut w') = Inr t' \<longrightarrow> length t' \<le> length ?cut"
    using osc_loop_shrinks [OF assms(3)] by blast
  have "length tx' \<le> length ?cut"
    using assms(4) ih
    by (auto simp: set_title_def SetConsoleTitle_def split: list.splits option.splits
        prod.splits if_splits)
  then show ?thesis using cut by simp
qed

lemma matches_somewhere_not_Nil: "matches_somewhere m s \<Longrightarrow> s \<noteq> []"
  by auto

lemma strip_write_written:
  assumes "\<not> convert t" and "strip t"
  shows "written (wrapped (snd (write_text t tx w)))
     = written (wrapped (snd (process_text t tx w)))"
  using assms
  by (cases "process_text t tx w")
    (auto simp: write_text_def reset_all_def split: option.splits)

text \<open>In Strip mode a text that holds a complete sequence comes out shorter.\<close>

lemma strip_shortens:
  assumes "\<not> convert t" and "strip t"
    and m: "matches_somewhere match_csi tx \<or> matches_somewhere match_osc tx"
  shows "length (emitted_by t w tx) < length tx"
proof -
  obtain r w1 where co: "convert_osc tx w = (r, w1)"
    by (cases "convert_osc tx w")
  have ord: "list_all (\<lambda>(st, en, g). st \<le> en) (finditer match_osc 0 tx)"
    by (rule finditer_ordered)
  have w1: "wrapped w1 = wrapped w"
    using osc_loop_shrinks [OF ord, of tx w] co by (simp add: convert_osc_def)
  have ne: "tx \<noteq> []"
    using m matches_somewhere_not_Nil by blast
  show ?thesis
  proof (cases r)
    case (Inl e)
    then have "process_text t tx w = (Some e, w1)"
      using co by (simp add: process_text_def)
    then have "written (wrapped (snd (write_text t tx w))) = written (wrapped w)"
      using strip_write_written [OF assms(1,2), of tx w] w1 by simp
    then show ?thesis using ne by (simp add: emitted_by_def)
  next
    case (Inr tx')
    have le: "length tx' \<le> length tx"
      using osc_loop_shrinks [OF ord, of tx w] co Inr by (simp add: convert_osc_def)
    have p: "process_text t tx w = csi_loop t tx' 0 (finditer match_csi 0 tx') w1"
      using co Inr by (simp add: process_text_def)
    obtain chunks where c:
      "written (wrapped (snd (csi_loop t tx' 0 (finditer match_csi 0 tx') w1)))
         = written (wrapped w1) @ chunks"
      "length (concat chunks) + (if matches_somewhere match_csi tx' then 1 else 0)
         \<le> length tx' - 0"
      using csi_loop_chunks [of match_csi tx' 0 tx' 0 t w1] match_csi_len by auto
    have e: "emitted_by t w tx = concat chunks"
      using strip_write_written [OF assms(1,2), of tx w] p c(1) w1
      by (simp add: emitted_by_def)
    have "length (concat chunks) < length tx"
    proof (cases "matches_somewhere match_osc tx")
      case True
      then obtain st en g ms where f: "finditer match_osc 0 tx = (st, en, g) # ms"
        using finditer_matched [of match_osc tx 0]
        by (cases "finditer match_osc 0 tx") auto
      have b: "st < en \<and> en \<le> 0 + length tx"
        using match_osc_len f by (rule finditer_first)
      have o: "list_all (\<lambda>(st, en, g). st \<le> en) ms"
        using ord f by simp
      have "fst (osc_loop ((st, en, g) # ms) tx w) = Inr tx'"
        using co Inr f by (simp add: convert_osc_def)
      then have "length tx' < length tx"
        using osc_loop_first_shrinks [of st en tx ms g w tx'] b o by simp
      then show ?thesis using c(2) by simp
    next
      case False
      then have "convert_osc tx w = (Inr tx, w)"
        by (simp add: convert_osc_def finditer_unmatched)
      then have "tx' = tx" using co Inr by simp
      moreover have "matches_somewhere match_csi tx" using m False by simp
      ultimately show ?thesis using c(2) by simp
    qed
    then show ?thesis using e by simp
  qed
qed

lemma strip_unmatched:
  assumes "\<not> convert t" and "strip t"
    and "\<not> matches_somewhere match_csi tx" and "\<not> matches_somewhere match_osc tx"
  shows "emitted_by t w tx = tx"
proof -
  have p: "process_text t tx w = (None, write_plain_text tx 0 (length tx) w)"
    using assms(4,3) by (rule process_text_unmatched)
  have "written (wrapped (snd (write_text t tx w)))
      = written (wrapped w) @ (if tx = [] then [] else [tx])"
    using strip_write_written [OF assms(1,2), of tx w] p
    by (simp add: written_write_plain_text_all)
  then show ?thesis by (simp add: emitted_by_def)
qed

text \<open>
  C9 (as amended). In Strip mode, stripping the result of stripping \<open>s\<close> gives that
  result again exactly when the result holds no complete sequence, that is, when
  neither pattern matches anywhere in it.
\<close>

theorem strip_idempotent_iff_output_unmatched:
  assumes "mode_of (convert t) (strip t) = Strip"
  shows "(emitted_by t w' (emitted_by t w s) = emitted_by t w s) =
     (\<not> matches_somewhere match_csi (emitted_by t w s)
      \<and> \<not> matches_somewhere match_osc (emitted_by t w s))"
proof -
  have cs: "\<not> convert t" "strip t"
    using assms by (auto simp: mode_of_def split: if_splits)
  show ?thesis
  proof (cases "matches_somewhere match_csi (emitted_by t w s)
      \<or> matches_somewhere match_osc (emitted_by t w s)")
    case True
    then have "length (emitted_by t w' (emitted_by t w s)) < length (emitted_by t w s)"
      using cs by (intro strip_shortens) simp_all
    then have "emitted_by t w' (emitted_by t w s) \<noteq> emitted_by t w s"
      by auto
    then show ?thesis using True by auto
  next
    case False
    then have "emitted_by t w' (emitted_by t w s) = emitted_by t w s"
      using cs by (intro strip_unmatched) simp_all
    then show ?thesis using False by simp
  qed
qed

text \<open>
  The input \<open>\033[1mabc\033[31\<close> strips to \<open>abc\033[31\<close>, which holds an ESC but no
  complete sequence, and strips to itself.
\<close>

theorem strip_idempotent_iff_output_unmatched_witness:
  "mode_of (convert (plain_translator False True False))
     (strip (plain_translator False True False)) = Strip \<and>
   emitted_by (plain_translator False True False) posix_world
     (ESC # ''[1mabc'' @ ESC # ''[31'') = ''abc'' @ ESC # ''[31'' \<and>
   \<not> matches_somewhere match_csi (''abc'' @ ESC # ''[31'') \<and>
   \<not> matches_somewhere match_osc (''abc'' @ ESC # ''[31'') \<and>
   emitted_by (plain_translator False True False) posix_world (''abc'' @ ESC # ''[31'')
     = ''abc'' @ ESC # ''[31''"
proof -
  have m: "mode_of (convert (plain_translator False True False))
      (strip (plain_translator False True False)) = Strip"
    by (simp add: plain_translator_def mode_of_def)
  have e: "emitted_by (plain_translator False True False) posix_world
      (ESC # ''[1mabc'' @ ESC # ''[31'') = ''abc'' @ ESC # ''[31''"
    by (simp add: emitted_by_def plain_translator_def posix_world_def tty_dest_def
        write_text_def process_text_def convert_osc_def handle_ansi_sequence_def
        params_of_def isdigit_def is_digit_def int_of_str_def max_str_digits_def
        digit_val_def is_param_def write_plain_text_def wrapped_write_def wrapped_flush_def
        slice_def ESC_def)
  have u: "\<not> matches_somewhere match_csi (''abc'' @ ESC # ''[31'')"
    "\<not> matches_somewhere match_osc (''abc'' @ ESC # ''[31'')"
    by (simp_all add: ESC_def is_param_def is_digit_def)
  show ?thesis
    using m e u
      strip_idempotent_iff_output_unmatched [OF m, of posix_world posix_world
        "ESC # ''[1mabc'' @ ESC # ''[31''"]
    by simp
qed

text \<open>
  C9 as stated fails: the input \<open>\033[\033[1m1m\<close> holds one complete sequence, in the
  middle; removing it leaves \<open>\033[1m\<close>, which a second pass strips to the empty
  string.
\<close>

theorem strip_not_idempotent_counterexample:
  "init None None False posix_platform posix_world = Inr (plain_translator False True False) \<and>
   emitted_by (plain_translator False True False) posix_world
     (ESC # CHR ''['' # ESC # ''[1m1m'') = ESC # ''[1m'' \<and>
   emitted_by (plain_translator False True False) posix_world (ESC # ''[1m'') = [] \<and>
   ESC # ''[1m'' \<noteq> []"
  by (simp add: init_def init_convert_def init_strip_def default_conversion_def
      get_win32_calls_def posix_platform_def emitted_by_def plain_translator_def
      posix_world_def tty_dest_def write_text_def process_text_def convert_osc_def
      handle_ansi_sequence_def params_of_def isdigit_def is_digit_def int_of_str_def
      max_str_digits_def digit_val_def is_param_def write_plain_text_def wrapped_write_def
      wrapped_flush_def slice_def ESC_def)

end
